theory Spec2Isabelle
  imports Main "HOL-Library.Word" "HOL-Library.AList"
begin

section \<open>Data model of \<open>raiden/routing.py\<close>\<close>

text \<open>
  The routing module reads the node's chain state and talks to the path-finding service
  (PFS). Addresses are 20-byte values, channel identifiers and block numbers are
  non-negative integers, fees and amounts are Python integers, a feedback token is a UUID.
\<close>

type_synonym Address = "160 word"
type_synonym ChannelID = nat
type_synonym BlockNumber = nat
type_synonym FeeAmount = int
type_synonym PaymentAmount = int
type_synonym UUID = "128 word"
type_synonym PrivateKey = "8 word list"

text \<open>
  The exceptions that the two public functions can let escape: the \<open>assert\<close> on the token
  network, a dictionary lookup of a missing key, an index past the end of a list, the
  address conversion of \<open>eth_utils\<close> rejecting its argument, and an operation or a call
  given a value it cannot take.
\<close>

datatype error = AssertionError | KeyError | IndexError | ValueError | TypeError

text \<open>
  \<open>channel.ChannelUsability\<close>: the source only names \<open>USABLE\<close>.
  Modelled from the spec: the other outcomes of the usability predicate, which is not
  part of \<open>routing.py\<close>.
\<close>

datatype ChannelUsability =
  USABLE | NOT_OPENED | INSUFFICIENT_OWN_CAPACITY | INSUFFICIENT_PARTNER_CAPACITY
  | IS_EXCLUDED_CHANNEL

text \<open>
  \<open>ChannelState\<close> is the status enumeration the source compares with
  (\<open>ChannelState.STATE_OPENED\<close>).
  Modelled from the spec: the statuses other than opened.
\<close>

datatype ChannelState =
  STATE_OPENED | STATE_CLOSING | STATE_CLOSED | STATE_SETTLED | STATE_UNUSABLE

text \<open>
  A channel object (the values of \<open>channelidentifiers_to_channels\<close>, called
  \<open>channel_state\<close> in the source). The routing code reads only
  \<open>open_transaction.finished_block_number\<close>; status and usability are computed by the
  \<open>channel\<close> module from the object.
\<close>

record TransactionExecutionStatus =
  finished_block_number :: BlockNumber

record NettingChannelState =
  channel_identifier :: ChannelID
  open_transaction :: TransactionExecutionStatus

text \<open>
  A Python \<open>dict\<close> is an association list read with \<open>map_of\<close>; its \<open>values()\<close> are the
  values of the keys that are visible through \<open>map_of\<close>.
\<close>

definition dict_values :: "('k \<times> 'v) list \<Rightarrow> 'v list" where
  "dict_values d = map snd (AList.clearjunk d)"

record TokenNetworkState =
  partneraddresses_to_channelidentifiers :: "(Address \<times> ChannelID list) list"
  channelidentifiers_to_channels :: "(ChannelID \<times> NettingChannelState) list"

record ChainState =
  our_address :: Address
  block_number :: BlockNumber
  chain_id :: nat

record RouteState =
  route :: "Address list"
  estimated_fee :: FeeAmount

record RouteMetadata =
  route :: "Address list"

text \<open>
  One entry of the list that the path-finding service returns: the source reads
  \<open>path_object["path"]\<close> (addresses in the service's textual form) and
  \<open>path_object["estimated_fee"]\<close>.
\<close>

record PathObject =
  path :: "string list"
  estimated_fee :: FeeAmount

text \<open>
  Modelled from the spec: \<open>PFSConfig\<close> of \<open>raiden.network.pathfinding\<close>, which is not
  part of the sources: the endpoint, the service's own address and the maximum fee the
  caller pays. The routing code only passes it on.
\<close>

record PFSConfig =
  pfs_url :: string
  pfs_address :: Address
  maximum_fee :: int

text \<open>
  The exception \<open>ServiceRequestFailed\<close> carries \<open>e.args\<close>, the tuple of the values it was
  raised with: none at all, a message, or a message and a dictionary of log fields. The
  handler reads \<open>e.args[0]\<close> and \<open>e.args[1]\<close> whatever they are, so the values are
  Python values: \<open>None\<close>, a string, an integer, or a dictionary from strings to strings.
\<close>

datatype py_value =
  PyNone | PyStr string | PyInt int | PyDict "(string \<times> string) list"

datatype ServiceRequestFailed =
  ServiceRequestFailed "py_value list"

text \<open>The keyword arguments of one call of \<open>query_paths\<close>.\<close>

record query_paths_args =
  q_pfs_config :: PFSConfig
  q_our_address :: Address
  q_privkey :: PrivateKey
  q_current_block_number :: BlockNumber
  q_token_network_address :: Address
  q_one_to_n_address :: Address
  q_chain_id :: nat
  q_route_from :: Address
  q_route_to :: Address
  q_value :: PaymentAmount
  q_pfs_wait_for_block :: BlockNumber

text \<open>
  The functions of other modules that \<open>routing.py\<close> calls are parameters of the model:
  \<open>views.get_token_network_by_address\<close>,
  \<open>views.get_channelstate_by_token_network_and_partner\<close>,
  \<open>channel.is_channel_usable_for_new_transfer\<close>, \<open>channel.get_status\<close>,
  \<open>eth_utils.to_canonical_address\<close> (\<open>None\<close> where it raises) and
  \<open>pathfinding.query_paths\<close> (\<open>Inl\<close> where it raises \<open>ServiceRequestFailed\<close>).
\<close>

record collaborators =
  get_token_network_by_address :: "ChainState \<Rightarrow> Address \<Rightarrow> TokenNetworkState option"
  get_channelstate_by_token_network_and_partner ::
    "ChainState \<Rightarrow> Address \<Rightarrow> Address \<Rightarrow> NettingChannelState option"
  is_channel_usable_for_new_transfer ::
    "NettingChannelState \<Rightarrow> int \<Rightarrow> ChannelID option \<Rightarrow> ChannelUsability"
  get_status :: "NettingChannelState \<Rightarrow> ChannelState"
  to_canonical_address :: "string \<Rightarrow> Address option"
  query_paths :: "query_paths_args \<Rightarrow> ServiceRequestFailed + (PathObject list \<times> UUID option)"

text \<open>
  The result of both route functions: error message, routes, feedback token. Each
  function also returns the list of path-finding queries it issued.
\<close>

type_synonym routes_result = "string option \<times> RouteState list \<times> UUID option"

section \<open>\<open>get_best_routes\<close>: the direct channel\<close>

text \<open>
  The loop over the channel identifiers registered for the target (lines 52 to 68):
  \<open>Inr True\<close> when it reaches a usable channel and returns the direct route,
  \<open>Inr False\<close> when it ends, \<open>KeyError\<close> when an identifier has no channel.
\<close>

fun direct_channel_loop ::
  "collaborators \<Rightarrow> TokenNetworkState \<Rightarrow> PaymentAmount \<Rightarrow> ChannelID list \<Rightarrow> error + bool"
where
  "direct_channel_loop env token_network amount [] = Inr False"
| "direct_channel_loop env token_network amount (channel_id # rest) =
     (case map_of (channelidentifiers_to_channels token_network) channel_id of
        None \<Rightarrow> Inl KeyError
      | Some channel_state \<Rightarrow>
          if is_channel_usable_for_new_transfer env channel_state amount None = USABLE
          then Inr True
          else direct_channel_loop env token_network amount rest)"

definition direct_channel ::
  "collaborators \<Rightarrow> TokenNetworkState \<Rightarrow> Address \<Rightarrow> PaymentAmount \<Rightarrow> error + bool"
where
  "direct_channel env token_network to_address amount =
     (case map_of (partneraddresses_to_channelidentifiers token_network) to_address of
        None \<Rightarrow> Inr False
      | Some channel_ids \<Rightarrow> direct_channel_loop env token_network amount channel_ids)"

text \<open>The loop of lines 70 to 74.\<close>

definition latest_channel_opened_at :: "TokenNetworkState \<Rightarrow> BlockNumber" where
  "latest_channel_opened_at token_network =
     fold (\<lambda>channel_state latest.
             max latest (finished_block_number (open_transaction channel_state)))
          (dict_values (channelidentifiers_to_channels token_network)) 0"

section \<open>\<open>get_best_routes_pfs\<close>\<close>

text \<open>\<open>[to_canonical_address(node) for node in path]\<close>: the first failure ends it.\<close>

fun canonical_path :: "collaborators \<Rightarrow> string list \<Rightarrow> Address list option" where
  "canonical_path env [] = Some []"
| "canonical_path env (node # nodes) =
     (case to_canonical_address env node of
        None \<Rightarrow> None
      | Some a \<Rightarrow> (case canonical_path env nodes of
                     None \<Rightarrow> None
                   | Some as \<Rightarrow> Some (a # as)))"

text \<open>\<open>xs[1]\<close>, which raises \<open>IndexError\<close> on a list of fewer than two entries.\<close>

fun second_entry :: "'a list \<Rightarrow> error + 'a" where
  "second_entry (x # y # zs) = Inr y"
| "second_entry xs = Inl IndexError"

text \<open>The loop over the returned path objects (lines 144 to 182).\<close>

fun pfs_paths_loop ::
  "collaborators \<Rightarrow> ChainState \<Rightarrow> Address \<Rightarrow> Address option \<Rightarrow> PathObject list
   \<Rightarrow> RouteState list \<Rightarrow> error + RouteState list"
where
  "pfs_paths_loop env chain_state token_network_address previous_address [] paths = Inr paths"
| "pfs_paths_loop env chain_state token_network_address previous_address (path_object # rest)
     paths =
     (case canonical_path env (PathObject.path path_object) of
        None \<Rightarrow> Inl ValueError
      | Some cpath \<Rightarrow>
          (case second_entry cpath of
             Inl e \<Rightarrow> Inl e
           | Inr partner_address \<Rightarrow>
               if Some partner_address = previous_address
               then pfs_paths_loop env chain_state token_network_address previous_address
                      rest paths
               else
                 (case get_channelstate_by_token_network_and_partner env chain_state
                         token_network_address partner_address of
                    None \<Rightarrow>
                      pfs_paths_loop env chain_state token_network_address previous_address
                        rest paths
                  | Some channel_state \<Rightarrow>
                      if get_status env channel_state \<noteq> STATE_OPENED
                      then pfs_paths_loop env chain_state token_network_address
                             previous_address rest paths
                      else pfs_paths_loop env chain_state token_network_address
                             previous_address rest
                             (paths @ [\<lparr>RouteState.route = cpath,
                                        RouteState.estimated_fee =
                                          PathObject.estimated_fee path_object\<rparr>]))))"

text \<open>The keyword arguments that \<open>get_best_routes_pfs\<close> hands to \<open>query_paths\<close>.\<close>

definition query_paths_call ::
  "ChainState \<Rightarrow> Address \<Rightarrow> Address \<Rightarrow> Address \<Rightarrow> Address \<Rightarrow> PaymentAmount
   \<Rightarrow> PFSConfig \<Rightarrow> PrivateKey \<Rightarrow> BlockNumber \<Rightarrow> query_paths_args"
where
  "query_paths_call chain_state token_network_address one_to_n_address from_address
     to_address amount pfs_config privkey pfs_wait_for_block =
     \<lparr>q_pfs_config = pfs_config,
      q_our_address = our_address chain_state,
      q_privkey = privkey,
      q_current_block_number = block_number chain_state,
      q_token_network_address = token_network_address,
      q_one_to_n_address = one_to_n_address,
      q_chain_id = chain_id chain_state,
      q_route_from = from_address,
      q_route_to = to_address,
      q_value = amount,
      q_pfs_wait_for_block = pfs_wait_for_block\<rparr>"

text \<open>Python's truth value of a value: \<open>None\<close>, \<open>""\<close>, \<open>0\<close> and \<open>{}\<close> are false.\<close>

fun py_truthy :: "py_value \<Rightarrow> bool" where
  "py_truthy PyNone = False"
| "py_truthy (PyStr s) = (s \<noteq> [])"
| "py_truthy (PyInt i) = (i \<noteq> 0)"
| "py_truthy (PyDict d) = (d \<noteq> [])"

text \<open>
  \<open>("PFS: " + e.args[0]) if e.args[0] else None\<close> (line 139): the concatenation of a
  string and a value that is no string raises \<open>TypeError\<close>.
\<close>

fun pfs_log_message :: "py_value \<Rightarrow> error + string option" where
  "pfs_log_message (PyStr s) = Inr (if s \<noteq> [] then Some (''PFS: '' @ s) else None)"
| "pfs_log_message v = (if py_truthy v then Inl TypeError else Inr None)"

text \<open>\<open>e.args[1] if len(e.args) > 1 else {}\<close> (line 140), for \<open>e.args\<close> with a first entry.\<close>

fun pfs_log_info :: "py_value list \<Rightarrow> py_value" where
  "pfs_log_info [] = PyDict []"
| "pfs_log_info (arg1 # others) = arg1"

text \<open>
  \<open>log.warning("An error ...", log_message=log_message, **log_info)\<close> (line 141) is a call,
  and a call can raise before anything is logged: \<open>**log_info\<close> needs a dictionary, its key
  \<open>log_message\<close> would give the keyword \<open>log_message\<close> twice, and its key \<open>event\<close> would
  give a second value to the parameter of the logger's method that already holds the text.
  \<open>True\<close> when the call raises \<open>TypeError\<close>. What the logger writes is not modelled.
\<close>

fun log_warning_raises :: "py_value \<Rightarrow> bool" where
  "log_warning_raises (PyDict log_info) =
     (map_of log_info ''log_message'' \<noteq> None \<or> map_of log_info ''event'' \<noteq> None)"
| "log_warning_raises v = True"

text \<open>The \<open>except\<close> branch of \<open>get_best_routes_pfs\<close> (lines 138 to 142).\<close>

definition pfs_request_failed :: "py_value list \<Rightarrow> error + routes_result" where
  "pfs_request_failed args =
     (case args of
        [] \<Rightarrow> Inl IndexError
      | arg0 # others \<Rightarrow>
          (case pfs_log_message arg0 of
             Inl e \<Rightarrow> Inl e
           | Inr log_message \<Rightarrow>
               if log_warning_raises (pfs_log_info others) then Inl TypeError
               else Inr (log_message, [], None)))"

definition get_best_routes_pfs ::
  "collaborators \<Rightarrow> ChainState \<Rightarrow> Address \<Rightarrow> Address \<Rightarrow> Address \<Rightarrow> Address
   \<Rightarrow> PaymentAmount \<Rightarrow> Address option \<Rightarrow> PFSConfig \<Rightarrow> PrivateKey \<Rightarrow> BlockNumber
   \<Rightarrow> (error + routes_result) \<times> query_paths_args list"
where
  "get_best_routes_pfs env chain_state token_network_address one_to_n_address from_address
     to_address amount previous_address pfs_config privkey pfs_wait_for_block =
     (let request = query_paths_call chain_state token_network_address one_to_n_address
                      from_address to_address amount pfs_config privkey pfs_wait_for_block
      in (case query_paths env request of
            Inl (ServiceRequestFailed args) \<Rightarrow> pfs_request_failed args
          | Inr (pfs_routes, feedback_token) \<Rightarrow>
              (case pfs_paths_loop env chain_state token_network_address previous_address
                      pfs_routes [] of
                 Inl e \<Rightarrow> Inl e
               | Inr paths \<Rightarrow> Inr (None, paths, feedback_token)),
          [request]))"

section \<open>\<open>get_best_routes\<close>\<close>

text \<open>Python's truth value of an \<open>Optional[str]\<close>: \<open>None\<close> and the empty string are false.\<close>

definition truthy :: "string option \<Rightarrow> bool" where
  "truthy s = (case s of None \<Rightarrow> False | Some m \<Rightarrow> m \<noteq> [])"

definition get_best_routes ::
  "collaborators \<Rightarrow> ChainState \<Rightarrow> Address \<Rightarrow> Address option \<Rightarrow> Address \<Rightarrow> Address
   \<Rightarrow> PaymentAmount \<Rightarrow> Address option \<Rightarrow> PFSConfig option \<Rightarrow> PrivateKey
   \<Rightarrow> (error + routes_result) \<times> query_paths_args list"
where
  "get_best_routes env chain_state token_network_address one_to_n_address from_address
     to_address amount previous_address pfs_config privkey =
     (case get_token_network_by_address env chain_state token_network_address of
        None \<Rightarrow> (Inl AssertionError, [])
      | Some token_network \<Rightarrow>
          (case direct_channel env token_network to_address amount of
             Inl e \<Rightarrow> (Inl e, [])
           | Inr True \<Rightarrow>
               (Inr (None,
                     [\<lparr>RouteState.route = [from_address, to_address],
                       RouteState.estimated_fee = 0\<rparr>],
                     None), [])
           | Inr False \<Rightarrow>
               (case (pfs_config, one_to_n_address) of
                  (Some config, Some one_to_n) \<Rightarrow>
                    (case get_best_routes_pfs env chain_state token_network_address one_to_n
                            from_address to_address amount previous_address config privkey
                            (latest_channel_opened_at token_network) of
                       (Inl e, calls) \<Rightarrow> (Inl e, calls)
                     | (Inr (pfs_error_msg, pfs_routes, pfs_feedback_token), calls) \<Rightarrow>
                         if \<not> truthy pfs_error_msg
                         then (if pfs_routes = []
                               then (Inr (Some ''PFS could not find any routes'', [], None),
                                     calls)
                               else (Inr (pfs_error_msg, pfs_routes, pfs_feedback_token),
                                     calls))
                         else (Inr (pfs_error_msg, [], None), calls))
                | _ \<Rightarrow>
                    (Inr (Some ''Pathfinding Service could not be used.'', [], None), []))))"

section \<open>\<open>resolve_routes\<close>\<close>

fun resolve_routes_loop ::
  "collaborators \<Rightarrow> Address \<Rightarrow> ChainState \<Rightarrow> RouteMetadata list \<Rightarrow> RouteState list
   \<Rightarrow> RouteState list"
where
  "resolve_routes_loop env token_network_address chain_state [] resolvable = resolvable"
| "resolve_routes_loop env token_network_address chain_state (route_metadata # rest)
     resolvable =
     (if length (RouteMetadata.route route_metadata) < 2
      then resolve_routes_loop env token_network_address chain_state rest resolvable
      else
        (case get_channelstate_by_token_network_and_partner env chain_state
                token_network_address (RouteMetadata.route route_metadata ! 1) of
           None \<Rightarrow> resolve_routes_loop env token_network_address chain_state rest resolvable
         | Some channel_state \<Rightarrow>
             resolve_routes_loop env token_network_address chain_state rest
               (resolvable @ [\<lparr>RouteState.route = RouteMetadata.route route_metadata,
                               RouteState.estimated_fee = 0\<rparr>])))"

definition resolve_routes ::
  "collaborators \<Rightarrow> RouteMetadata list \<Rightarrow> Address \<Rightarrow> ChainState \<Rightarrow> RouteState list"
where
  "resolve_routes env routes token_network_address chain_state =
     resolve_routes_loop env token_network_address chain_state routes []"

section \<open>Accepted candidates\<close>

text \<open>
  What the loop of \<open>get_best_routes_pfs\<close> requires of a path object before it appends the
  route \<open>r\<close>: the path converts to the route's addresses, the fee is carried over, the
  second address is not the previous hop, and the channel with it exists and is opened.
\<close>

definition pfs_accepted ::
  "collaborators \<Rightarrow> ChainState \<Rightarrow> Address \<Rightarrow> Address option \<Rightarrow> PathObject \<Rightarrow> RouteState \<Rightarrow> bool"
where
  "pfs_accepted env cs tna prev po r =
     (canonical_path env (PathObject.path po) = Some (RouteState.route r) \<and>
      RouteState.estimated_fee r = PathObject.estimated_fee po \<and>
      (case second_entry (RouteState.route r) of
         Inl e \<Rightarrow> False
       | Inr partner \<Rightarrow>
           Some partner \<noteq> prev \<and>
           (case get_channelstate_by_token_network_and_partner env cs tna partner of
              None \<Rightarrow> False
            | Some ch \<Rightarrow> get_status env ch = STATE_OPENED)))"

section \<open>A small network for the scenarios\<close>

text \<open>
  Node 1 has an opened channel (identifier 1, opened in block 7) with node 2, a closed
  channel (identifier 2, opened in block 9) with node 3 and an opened channel
  (identifier 3, opened in block 8) with node 5; node 4 is no partner. Transfers of up
  to 100 fit an opened channel. The token network has address 100.
\<close>

definition ex_channel :: "ChannelID \<Rightarrow> BlockNumber \<Rightarrow> NettingChannelState" where
  "ex_channel cid blk =
     \<lparr>channel_identifier = cid, open_transaction = \<lparr>finished_block_number = blk\<rparr>\<rparr>"

definition ex_token_network :: TokenNetworkState where
  "ex_token_network =
     \<lparr>partneraddresses_to_channelidentifiers = [(2, [1]), (3, [2]), (5, [3])],
      channelidentifiers_to_channels =
        [(1, ex_channel 1 7), (2, ex_channel 2 9), (3, ex_channel 3 8)]\<rparr>"

definition ex_chain_state :: ChainState where
  "ex_chain_state = \<lparr>our_address = 1, block_number = 12, chain_id = 5\<rparr>"

definition ex_status :: "NettingChannelState \<Rightarrow> ChannelState" where
  "ex_status c = (if channel_identifier c = 2 then STATE_CLOSED else STATE_OPENED)"

definition ex_usable :: "NettingChannelState \<Rightarrow> int \<Rightarrow> ChannelID option \<Rightarrow> ChannelUsability"
where
  "ex_usable c amount excluded =
     (if ex_status c \<noteq> STATE_OPENED then NOT_OPENED
      else if Some (channel_identifier c) = excluded then IS_EXCLUDED_CHANNEL
      else if amount \<le> 100 then USABLE
      else INSUFFICIENT_OWN_CAPACITY)"

definition ex_partner_channel :: "Address \<Rightarrow> NettingChannelState option" where
  "ex_partner_channel partner =
     (case map_of (partneraddresses_to_channelidentifiers ex_token_network) partner of
        Some (cid # _) \<Rightarrow> map_of (channelidentifiers_to_channels ex_token_network) cid
      | _ \<Rightarrow> None)"

definition ex_canonical :: "string \<Rightarrow> Address option" where
  "ex_canonical s =
     (if s = ''0x01'' then Some 1 else if s = ''0x02'' then Some 2
      else if s = ''0x03'' then Some 3 else if s = ''0x04'' then Some 4
      else if s = ''0x05'' then Some 5 else None)"

definition ex_env ::
  "(query_paths_args \<Rightarrow> ServiceRequestFailed + (PathObject list \<times> UUID option))
   \<Rightarrow> collaborators"
where
  "ex_env service =
     \<lparr>get_token_network_by_address =
        (\<lambda>chain_state a. if a = 100 then Some ex_token_network else None),
      get_channelstate_by_token_network_and_partner =
        (\<lambda>chain_state a partner. if a = 100 then ex_partner_channel partner else None),
      is_channel_usable_for_new_transfer = ex_usable,
      get_status = ex_status,
      to_canonical_address = ex_canonical,
      query_paths = service\<rparr>"

definition ex_pfs_config :: PFSConfig where
  "ex_pfs_config = \<lparr>pfs_url = ''https://pfs'', pfs_address = 50, maximum_fee = 3\<rparr>"

definition ex_service_failure ::
  "string \<Rightarrow> query_paths_args \<Rightarrow> ServiceRequestFailed + (PathObject list \<times> UUID option)"
where
  "ex_service_failure message request = Inl (ServiceRequestFailed [PyStr message])"

definition ex_service_failure_fields ::
  "string \<Rightarrow> (string \<times> string) list \<Rightarrow> query_paths_args
   \<Rightarrow> ServiceRequestFailed + (PathObject list \<times> UUID option)"
where
  "ex_service_failure_fields message log_info request =
     Inl (ServiceRequestFailed [PyStr message, PyDict log_info])"

definition ex_service_paths ::
  "PathObject list \<Rightarrow> query_paths_args
   \<Rightarrow> ServiceRequestFailed + (PathObject list \<times> UUID option)"
where
  "ex_service_paths pfs_routes request = Inr (pfs_routes, Some 77)"

definition ex_path :: "string list \<Rightarrow> FeeAmount \<Rightarrow> PathObject" where
  "ex_path nodes fee = \<lparr>path = nodes, estimated_fee = fee\<rparr>"

definition ex_route :: "Address list \<Rightarrow> FeeAmount \<Rightarrow> RouteState" where
  "ex_route addresses fee = \<lparr>RouteState.route = addresses, RouteState.estimated_fee = fee\<rparr>"

definition ex_metadata :: "Address list \<Rightarrow> RouteMetadata" where
  "ex_metadata addresses = \<lparr>RouteMetadata.route = addresses\<rparr>"

definition ex_two_paths :: "PathObject list" where
  "ex_two_paths =
     [ex_path [''0x01'', ''0x03'', ''0x04''] 2, ex_path [''0x01'', ''0x02'', ''0x04''] 5]"

definition ex_paths_via_2_and_5 :: "PathObject list" where
  "ex_paths_via_2_and_5 =
     [ex_path [''0x01'', ''0x02'', ''0x04''] 5, ex_path [''0x01'', ''0x05'', ''0x04''] 6]"

lemmas ex_defs =
  ex_env_def ex_token_network_def ex_chain_state_def ex_status_def ex_usable_def
  ex_partner_channel_def ex_canonical_def ex_channel_def ex_pfs_config_def
  ex_service_failure_def ex_service_failure_fields_def ex_service_paths_def ex_path_def
  ex_route_def ex_metadata_def

section \<open>The loops\<close>

lemma direct_channel_loop_first_usable:
  assumes "\<forall>i \<in> set pre. map_of (channelidentifiers_to_channels tn) i \<noteq> None"
    and "map_of (channelidentifiers_to_channels tn) cid = Some ch"
    and "is_channel_usable_for_new_transfer env ch amount None = USABLE"
  shows "direct_channel_loop env tn amount (pre @ cid # rest) = Inr True"
  using assms by (induction pre) auto

lemma fold_max_eq_Max:
  fixes a :: nat
  shows "fold (\<lambda>c latest. max latest (f c)) xs a = Max (insert a (f ` set xs))"
proof (induction xs arbitrary: a)
  case Nil
  show ?case by simp
next
  case (Cons x xs)
  have "Max (insert (max a (f x)) (f ` set xs)) = Max (insert a (insert (f x) (f ` set xs)))"
  proof (cases "set xs = {}")
    case True
    then show ?thesis by (simp add: max.commute)
  next
    case False
    then show ?thesis by (simp add: max.assoc)
  qed
  with Cons show ?case by simp
qed

lemma set_dict_values: "set (dict_values d) = ran (map_of d)"
  by (simp add: dict_values_def ran_map_of)

lemma latest_channel_opened_at_Max:
  "latest_channel_opened_at tn =
     Max (insert 0 ((\<lambda>c. finished_block_number (open_transaction c)) `
                     ran (map_of (channelidentifiers_to_channels tn))))"
  by (simp add: latest_channel_opened_at_def fold_max_eq_Max set_dict_values)

lemma pfs_paths_loop_step:
  assumes "pfs_paths_loop env cs tna prev (po # pos) acc = Inr paths"
  shows "pfs_paths_loop env cs tna prev pos acc = Inr paths \<or>
   (\<exists>r. pfs_accepted env cs tna prev po r \<and>
        pfs_paths_loop env cs tna prev pos (acc @ [r]) = Inr paths)"
proof (cases "canonical_path env (PathObject.path po)")
  case None
  with assms show ?thesis by simp
next
  case (Some cp)
  note cp = this
  show ?thesis
  proof (cases "second_entry cp")
    case (Inl e)
    with assms cp show ?thesis by simp
  next
    case (Inr partner)
    note partner = this
    show ?thesis
    proof (cases "Some partner = prev")
      case True
      with assms cp partner show ?thesis by simp
    next
      case False
      note noback = this
      show ?thesis
      proof (cases "get_channelstate_by_token_network_and_partner env cs tna partner")
        case None
        with assms cp partner noback show ?thesis by simp
      next
        case (Some ch)
        show ?thesis
        proof (cases "get_status env ch = STATE_OPENED")
          case False
          with assms cp partner noback Some show ?thesis by simp
        next
          case True
          let ?r = "\<lparr>RouteState.route = cp,
                     RouteState.estimated_fee = PathObject.estimated_fee po\<rparr>"
          have "pfs_accepted env cs tna prev po ?r"
            using cp partner noback Some True by (simp add: pfs_accepted_def)
          moreover have "pfs_paths_loop env cs tna prev pos (acc @ [?r]) = Inr paths"
            using assms cp partner noback Some True by simp
          ultimately show ?thesis by blast
        qed
      qed
    qed
  qed
qed

lemma pfs_paths_loop_sound:
  assumes "pfs_paths_loop env cs tna prev pos acc = Inr paths" and "r \<in> set paths"
  shows "r \<in> set acc \<or> (\<exists>po \<in> set pos. pfs_accepted env cs tna prev po r)"
  using assms
proof (induction pos arbitrary: acc)
  case Nil
  then show ?case by simp
next
  case (Cons po pos)
  from pfs_paths_loop_step [OF Cons.prems(1)] show ?case
  proof
    assume "pfs_paths_loop env cs tna prev pos acc = Inr paths"
    from Cons.IH [OF this Cons.prems(2)] show ?thesis by auto
  next
    assume "\<exists>r'. pfs_accepted env cs tna prev po r' \<and>
              pfs_paths_loop env cs tna prev pos (acc @ [r']) = Inr paths"
    then obtain r' where acc: "pfs_accepted env cs tna prev po r'"
      and loop: "pfs_paths_loop env cs tna prev pos (acc @ [r']) = Inr paths" by blast
    from Cons.IH [OF loop Cons.prems(2)] acc show ?thesis by auto
  qed
qed

lemma pfs_paths_loop_discard:
  assumes "canonical_path env (PathObject.path po) = Some cp"
    and "second_entry cp = Inr partner"
    and "Some partner = prev \<or>
         get_channelstate_by_token_network_and_partner env cs tna partner = None \<or>
         (\<exists>ch. get_channelstate_by_token_network_and_partner env cs tna partner = Some ch \<and>
               get_status env ch \<noteq> STATE_OPENED)"
  shows "pfs_paths_loop env cs tna prev (pre @ po # post) acc =
         pfs_paths_loop env cs tna prev (pre @ post) acc"
  using assms
  by (induction pre arbitrary: acc) (auto split: option.splits sum.splits)

lemma resolve_routes_loop_eq:
  "resolve_routes_loop env tna cs rms acc =
     acc @ map (\<lambda>rm. \<lparr>RouteState.route = RouteMetadata.route rm, RouteState.estimated_fee = 0\<rparr>)
             (filter (\<lambda>rm. 2 \<le> length (RouteMetadata.route rm) \<and>
                       get_channelstate_by_token_network_and_partner env cs tna
                         (RouteMetadata.route rm ! 1) \<noteq> None) rms)"
  by (induction rms arbitrary: acc) (auto split: option.splits)

lemma pfs_log_message_truthy:
  "pfs_log_message v = Inr msg \<Longrightarrow> msg = None \<or> truthy msg"
  by (cases v) (auto simp: truthy_def split: if_splits)

lemma pfs_request_failed_message:
  "pfs_request_failed args = Inr (msg, routes, tok) \<longleftrightarrow>
     (\<exists>arg0 others. args = arg0 # others \<and> pfs_log_message arg0 = Inr msg \<and>
        \<not> log_warning_raises (pfs_log_info others)) \<and> routes = [] \<and> tok = None"
  by (auto simp: pfs_request_failed_def split: list.splits sum.splits if_splits)

lemma get_best_routes_pfs_shape:
  assumes "fst (get_best_routes_pfs env cs tna o2n frm to amount prev cfg key w) = Inr (msg, routes, tok)"
  shows "(msg = None \<or> (truthy msg \<and> routes = [] \<and> tok = None))"
  using assms
proof (cases "query_paths env (query_paths_call cs tna o2n frm to amount cfg key w)")
  case (Inl failure)
  obtain args where "failure = ServiceRequestFailed args" by (cases failure) simp
  with Inl assms have "pfs_request_failed args = Inr (msg, routes, tok)"
    by (simp add: get_best_routes_pfs_def Let_def)
  then show ?thesis
    by (auto simp: pfs_request_failed_message dest: pfs_log_message_truthy)
next
  case (Inr answer)
  with assms show ?thesis
    by (auto simp: get_best_routes_pfs_def Let_def split: sum.splits prod.splits)
qed

section \<open>The three functions\<close>

lemma canonical_path_Some_iff:
  "canonical_path env nodes = Some addresses \<longleftrightarrow>
   map (to_canonical_address env) nodes = map Some addresses"
proof (induction nodes arbitrary: addresses)
  case Nil
  show ?case by auto
next
  case (Cons node nodes)
  show ?case
  proof (cases addresses)
    case Nil
    then show ?thesis by (simp split: option.splits)
  next
    case (Cons a as)
    with Cons.IH [of as] show ?thesis by (auto split: option.splits)
  qed
qed

lemma second_entry_Inr_iff:
  "second_entry xs = Inr y \<longleftrightarrow> 2 \<le> length xs \<and> xs ! 1 = y"
  by (cases xs rule: second_entry.cases) auto

lemma get_best_routes_pfs_failure:
  assumes "query_paths env (query_paths_call cs tna o2n frm to amount cfg key w) =
           Inl (ServiceRequestFailed args)"
  shows "get_best_routes_pfs env cs tna o2n frm to amount prev cfg key w =
         (pfs_request_failed args, [query_paths_call cs tna o2n frm to amount cfg key w])"
  using assms by (simp add: get_best_routes_pfs_def Let_def)

lemma get_best_routes_pfs_success:
  assumes "query_paths env (query_paths_call cs tna o2n frm to amount cfg key w) =
           Inr (pfs_routes, feedback_token)"
  shows "get_best_routes_pfs env cs tna o2n frm to amount prev cfg key w =
         (case pfs_paths_loop env cs tna prev pfs_routes [] of
            Inl e \<Rightarrow> Inl e
          | Inr paths \<Rightarrow> Inr (None, paths, feedback_token),
          [query_paths_call cs tna o2n frm to amount cfg key w])"
  using assms by (simp add: get_best_routes_pfs_def Let_def)

lemma get_best_routes_pfs_routes_sound:
  assumes "fst (get_best_routes_pfs env cs tna o2n frm to amount prev cfg key w) =
           Inr (msg, routes, tok)"
    and "r \<in> set routes"
  shows "\<exists>pfs_routes feedback_token.
           query_paths env (query_paths_call cs tna o2n frm to amount cfg key w) =
             Inr (pfs_routes, feedback_token) \<and>
           (\<exists>po \<in> set pfs_routes. pfs_accepted env cs tna prev po r)"
proof (cases "query_paths env (query_paths_call cs tna o2n frm to amount cfg key w)")
  case (Inl failure)
  then obtain args where "failure = ServiceRequestFailed args"
    by (cases failure) simp
  with Inl assms show ?thesis
    by (simp add: get_best_routes_pfs_failure pfs_request_failed_message)
next
  case (Inr answer)
  then obtain pfs_routes feedback_token where
    q: "query_paths env (query_paths_call cs tna o2n frm to amount cfg key w) =
          Inr (pfs_routes, feedback_token)"
    by (cases answer) simp
  from assms(1) have "pfs_paths_loop env cs tna prev pfs_routes [] = Inr routes"
    by (simp add: get_best_routes_pfs_success [OF q] split: sum.splits)
  from pfs_paths_loop_sound [OF this assms(2)] q show ?thesis by auto
qed

lemma resolve_routes_eq:
  "resolve_routes env routes tna cs =
     map (\<lambda>rm. \<lparr>RouteState.route = RouteMetadata.route rm, RouteState.estimated_fee = 0\<rparr>)
       (filter (\<lambda>rm. 2 \<le> length (RouteMetadata.route rm) \<and>
                 get_channelstate_by_token_network_and_partner env cs tna
                   (RouteMetadata.route rm ! 1) \<noteq> None) routes)"
  by (simp add: resolve_routes_def resolve_routes_loop_eq)

lemma get_best_routes_no_direct:
  assumes "get_token_network_by_address env cs tna = Some tn"
    and "direct_channel env tn to amount = Inr False"
  shows "get_best_routes env cs tna (Some o2n) frm to amount prev (Some cfg) key =
     (case get_best_routes_pfs env cs tna o2n frm to amount prev cfg key
             (latest_channel_opened_at tn) of
        (Inl e, calls) \<Rightarrow> (Inl e, calls)
      | (Inr (pfs_error_msg, pfs_routes, pfs_feedback_token), calls) \<Rightarrow>
          if \<not> truthy pfs_error_msg
          then (if pfs_routes = []
                then (Inr (Some ''PFS could not find any routes'', [], None), calls)
                else (Inr (pfs_error_msg, pfs_routes, pfs_feedback_token), calls))
          else (Inr (pfs_error_msg, [], None), calls))"
  using assms by (simp add: get_best_routes_def)

lemma ex_no_direct_channel:
  "direct_channel (ex_env service) ex_token_network 4 100 = Inr False"
  by (simp add: direct_channel_def ex_defs)

lemma ex_latest_channel_opened_at: "latest_channel_opened_at ex_token_network = 9"
  by (simp add: latest_channel_opened_at_def dict_values_def ex_defs)

lemma get_best_routes_calls:
  assumes "get_token_network_by_address env cs tna = Some tn"
    and "direct_channel env tn to amount = Inr False"
  shows "snd (get_best_routes env cs tna (Some o2n) frm to amount prev (Some cfg) key) =
         snd (get_best_routes_pfs env cs tna o2n frm to amount prev cfg key
                (latest_channel_opened_at tn))"
proof (cases "get_best_routes_pfs env cs tna o2n frm to amount prev cfg key
                (latest_channel_opened_at tn)")
  case (Pair res calls)
  show ?thesis
  proof (cases res)
    case (Inl e)
    with Pair show ?thesis by (simp add: get_best_routes_no_direct [OF assms])
  next
    case (Inr triple)
    obtain msg routes tok where "triple = (msg, routes, tok)" by (cases triple) auto
    with Pair Inr show ?thesis by (simp add: get_best_routes_no_direct [OF assms])
  qed
qed

lemma pfs_accepted_iff:
  "pfs_accepted env cs tna prev po r \<longleftrightarrow>
     map (to_canonical_address env) (PathObject.path po) = map Some (RouteState.route r) \<and>
     RouteState.estimated_fee r = PathObject.estimated_fee po \<and>
     2 \<le> length (RouteState.route r) \<and>
     Some (RouteState.route r ! 1) \<noteq> prev \<and>
     (\<exists>ch. get_channelstate_by_token_network_and_partner env cs tna (RouteState.route r ! 1) =
             Some ch \<and> get_status env ch = STATE_OPENED)"
  by (cases "RouteState.route r" rule: second_entry.cases)
     (auto simp: pfs_accepted_def canonical_path_Some_iff split: option.splits)

lemma get_best_routes_result_cases:
  assumes "fst (get_best_routes env cs tna o2n frm to amount prev cfg key) =
           Inr (msg, routes, tok)"
  shows "(msg = None \<and> routes = [\<lparr>RouteState.route = [frm, to], RouteState.estimated_fee = 0\<rparr>]
            \<and> tok = None) \<or>
         (msg \<noteq> None \<and> routes = [] \<and> tok = None) \<or>
         (msg = None \<and> routes \<noteq> [] \<and>
            (\<exists>tn one_to_n config. get_token_network_by_address env cs tna = Some tn \<and>
               direct_channel env tn to amount = Inr False \<and>
               o2n = Some one_to_n \<and> cfg = Some config \<and>
               fst (get_best_routes_pfs env cs tna one_to_n frm to amount prev config key
                      (latest_channel_opened_at tn)) = Inr (msg, routes, tok)))"
proof (cases "get_token_network_by_address env cs tna")
  case None
  with assms show ?thesis by (simp add: get_best_routes_def)
next
  case (Some tn)
  note tn = this
  show ?thesis
  proof (cases "direct_channel env tn to amount")
    case (Inl e)
    with assms tn show ?thesis by (simp add: get_best_routes_def)
  next
    case (Inr usable)
    show ?thesis
    proof (cases usable)
      case True
      with assms tn Inr show ?thesis by (auto simp: get_best_routes_def)
    next
      case False
      with Inr have nodirect: "direct_channel env tn to amount = Inr False" by simp
      show ?thesis
      proof (cases "cfg = None \<or> o2n = None")
        case True
        with assms tn nodirect show ?thesis
          by (auto simp: get_best_routes_def split: option.splits)
      next
        case False
        then obtain config one_to_n where c: "cfg = Some config" "o2n = Some one_to_n"
          by auto
        obtain res calls where p:
          "get_best_routes_pfs env cs tna one_to_n frm to amount prev config key
             (latest_channel_opened_at tn) = (res, calls)"
          by (cases "get_best_routes_pfs env cs tna one_to_n frm to amount prev config key
             (latest_channel_opened_at tn)") auto
        show ?thesis
        proof (cases res)
          case (Inl e)
          with assms c p show ?thesis
            by (simp add: get_best_routes_no_direct [OF tn nodirect])
        next
          case (Inr triple)
          obtain m rs t where t: "triple = (m, rs, t)" by (cases triple) auto
          have shape: "m = None \<or> (truthy m \<and> rs = [] \<and> t = None)"
            using get_best_routes_pfs_shape [of env cs tna one_to_n frm to amount prev config
                key "latest_channel_opened_at tn" m rs t] p Inr t by simp
          from assms c p Inr t shape tn nodirect show ?thesis
            by (auto simp: get_best_routes_no_direct [OF tn nodirect] truthy_def
                split: if_splits option.splits)
        qed
      qed
    qed
  qed
qed

lemma canonical_path_query_irrelevant [simp]:
  "canonical_path (env\<lparr>query_paths := service\<rparr>) nodes = canonical_path env nodes"
  by (induction nodes) (auto split: option.splits)

lemma pfs_paths_loop_query_irrelevant [simp]:
  "pfs_paths_loop (env\<lparr>query_paths := service\<rparr>) cs tna prev pos acc =
   pfs_paths_loop env cs tna prev pos acc"
  by (induction pos arbitrary: acc) (auto split: option.splits sum.splits)

lemma get_best_routes_pfs_discard:
  assumes "query_paths env (query_paths_call cs tna o2n frm to amount cfg key w) =
           Inr (pre @ po # post, tok)"
    and "canonical_path env (PathObject.path po) = Some cp"
    and "second_entry cp = Inr partner"
    and "Some partner = prev \<or>
         get_channelstate_by_token_network_and_partner env cs tna partner = None \<or>
         (\<exists>ch. get_channelstate_by_token_network_and_partner env cs tna partner = Some ch \<and>
               get_status env ch \<noteq> STATE_OPENED)"
  shows "fst (get_best_routes_pfs env cs tna o2n frm to amount prev cfg key w) =
         fst (get_best_routes_pfs (env\<lparr>query_paths := (\<lambda>request. Inr (pre @ post, tok))\<rparr>)
                cs tna o2n frm to amount prev cfg key w)"
proof -
  have "query_paths (env\<lparr>query_paths := (\<lambda>request. Inr (pre @ post, tok))\<rparr>)
          (query_paths_call cs tna o2n frm to amount cfg key w) = Inr (pre @ post, tok)"
    by simp
  from get_best_routes_pfs_success [OF this] get_best_routes_pfs_success [OF assms(1)]
    pfs_paths_loop_discard [OF assms(2,3,4)]
  show ?thesis by simp
qed

lemma get_best_routes_pfs_routes_accepted:
  assumes "fst (get_best_routes_pfs env cs tna o2n frm to amount prev cfg key w) =
           Inr (msg, routes, tok)"
    and "r \<in> set routes"
  shows "\<exists>pfs_routes feedback_token.
           query_paths env (query_paths_call cs tna o2n frm to amount cfg key w) =
             Inr (pfs_routes, feedback_token) \<and>
           (\<exists>po \<in> set pfs_routes.
              map (to_canonical_address env) (PathObject.path po) =
                map Some (RouteState.route r) \<and>
              RouteState.estimated_fee r = PathObject.estimated_fee po \<and>
              2 \<le> length (RouteState.route r) \<and>
              Some (RouteState.route r ! 1) \<noteq> prev \<and>
              (\<exists>ch. get_channelstate_by_token_network_and_partner env cs tna
                      (RouteState.route r ! 1) = Some ch \<and>
                    get_status env ch = STATE_OPENED))"
  using get_best_routes_pfs_routes_sound [OF assms] by (simp add: pfs_accepted_iff)

lemma ex_pfs_two_paths:
  "fst (get_best_routes_pfs (ex_env (ex_service_paths ex_two_paths)) ex_chain_state 100 60 1 4
          100 previous ex_pfs_config [] 9) =
   (if previous = Some 2 then Inr (None, [], Some 77)
    else Inr (None, [ex_route [1, 2, 4] 5], Some 77))"
  by (simp add: get_best_routes_pfs_def Let_def ex_two_paths_def ex_defs)

lemma ex_resolve_routes:
  "resolve_routes (ex_env service) [ex_metadata [1, 3, 4], ex_metadata [1], ex_metadata [1, 4]]
     100 ex_chain_state = [ex_route [1, 3, 4] 0]"
  by (simp add: resolve_routes_def ex_defs)

lemma ex_pfs_paths_via_2_and_5:
  "fst (get_best_routes_pfs (ex_env (ex_service_paths ex_paths_via_2_and_5)) ex_chain_state
          100 60 1 4 100 (Some 2) ex_pfs_config [] 9) =
   Inr (None, [ex_route [1, 5, 4] 6], Some 77)"
  by (simp add: get_best_routes_pfs_def Let_def ex_paths_via_2_and_5_def ex_defs)

section \<open>The direct channel comes first\<close>

text \<open>
  Claim C1. When the partner index of the token network lists, for the target, a channel
  that is usable for the full amount, \<open>get_best_routes\<close> returns no error, the single
  route \<open>[from_address, to_address]\<close> with fee 0 and no feedback token, and issues no
  path-finding query, whatever \<open>pfs_config\<close> and \<open>one_to_n_address\<close> are. The loop stops
  at the first usable channel: the identifiers \<open>later\<close> in the list are not looked up (they
  need not even have a channel). The identifiers \<open>earlier\<close> in the list are looked up on
  the way, so each of them has a channel, as the invariant of the token network state
  says of every identifier.
\<close>

theorem get_best_routes_direct_channel:
  assumes "get_token_network_by_address env chain_state token_network_address =
           Some token_network"
    and "map_of (partneraddresses_to_channelidentifiers token_network) to_address =
           Some (earlier @ channel_id # later)"
    and "\<forall>i \<in> set earlier. map_of (channelidentifiers_to_channels token_network) i \<noteq> None"
    and "map_of (channelidentifiers_to_channels token_network) channel_id =
           Some channel_state"
    and "is_channel_usable_for_new_transfer env channel_state amount None = USABLE"
  shows "get_best_routes env chain_state token_network_address one_to_n_address
           from_address to_address amount previous_address pfs_config privkey =
         (Inr (None,
               [\<lparr>RouteState.route = [from_address, to_address],
                 RouteState.estimated_fee = 0\<rparr>],
               None), [])"
proof -
  have "direct_channel env token_network to_address amount = Inr True"
    using assms(2) direct_channel_loop_first_usable [OF assms(3) assms(4) assms(5)]
    by (simp add: direct_channel_def)
  with assms(1) show ?thesis by (simp add: get_best_routes_def)
qed

theorem get_best_routes_direct_channel_witness:
  "get_best_routes
     ((ex_env (ex_service_failure ''unused''))
        \<lparr>get_token_network_by_address :=
           (\<lambda>cs a. Some (ex_token_network
                           \<lparr>partneraddresses_to_channelidentifiers := [(2, [2, 1, 8])]\<rparr>))\<rparr>)
     ex_chain_state 100 (Some 60) 1 2 100 None (Some ex_pfs_config) [] =
   (Inr (None, [ex_route [1, 2] 0], None), [])"
proof -
  let ?tn = "ex_token_network\<lparr>partneraddresses_to_channelidentifiers := [(2, [2, 1, 8])]\<rparr>"
  let ?env = "(ex_env (ex_service_failure ''unused''))
                \<lparr>get_token_network_by_address := (\<lambda>cs a. Some ?tn)\<rparr>"
  have h1: "get_token_network_by_address ?env ex_chain_state 100 = Some ?tn" by simp
  have h2: "map_of (partneraddresses_to_channelidentifiers ?tn) 2 = Some ([2] @ 1 # [8])"
    by simp
  have h3: "\<forall>i \<in> set [2::nat]. map_of (channelidentifiers_to_channels ?tn) i \<noteq> None"
    by (simp add: ex_defs)
  have h4: "map_of (channelidentifiers_to_channels ?tn) 1 = Some (ex_channel 1 7)"
    by (simp add: ex_defs)
  have h5: "is_channel_usable_for_new_transfer ?env (ex_channel 1 7) 100 None = USABLE"
    by (simp add: ex_defs)
  show ?thesis
    using get_best_routes_direct_channel [OF h1 h2 h3 h4 h5, of "Some 60" 1 None "Some ex_pfs_config" "[]"]
    by (simp add: ex_route_def)
qed

section \<open>The staleness bound of the query\<close>

text \<open>
  Claim C9. When no direct channel is usable and \<open>get_best_routes\<close> queries the
  path-finding service, it issues exactly one query, and the \<open>pfs_wait_for_block\<close> of that
  query is the largest \<open>open_transaction.finished_block_number\<close> over all channels of
  the token network, and 0 when the token network has no channel.
\<close>

theorem pfs_wait_for_block_is_latest_opening:
  assumes "get_token_network_by_address env chain_state token_network_address =
           Some token_network"
    and "direct_channel env token_network to_address amount = Inr False"
  shows "\<exists>request.
           snd (get_best_routes env chain_state token_network_address (Some one_to_n)
                  from_address to_address amount previous_address (Some config) privkey) =
             [request] \<and>
           q_pfs_wait_for_block request =
             (if ran (map_of (channelidentifiers_to_channels token_network)) = {} then 0
              else Max ((\<lambda>c. finished_block_number (open_transaction c)) `
                          ran (map_of (channelidentifiers_to_channels token_network))))"
proof -
  let ?channels = "ran (map_of (channelidentifiers_to_channels token_network))"
  let ?blocks = "(\<lambda>c. finished_block_number (open_transaction c)) ` ?channels"
  let ?request = "query_paths_call chain_state token_network_address one_to_n from_address
                    to_address amount config privkey (latest_channel_opened_at token_network)"
  have "snd (get_best_routes_pfs env chain_state token_network_address one_to_n from_address
               to_address amount previous_address config privkey
               (latest_channel_opened_at token_network)) = [?request]"
    by (simp add: get_best_routes_pfs_def Let_def)
  then have calls: "snd (get_best_routes env chain_state token_network_address (Some one_to_n)
                      from_address to_address amount previous_address (Some config) privkey) =
                    [?request]"
    by (simp add: get_best_routes_calls [OF assms])
  have fin: "finite ?blocks"
    by (simp add: ran_map_of)
  have "latest_channel_opened_at token_network = (if ?channels = {} then 0 else Max ?blocks)"
  proof (cases "?channels = {}")
    case True
    then show ?thesis by (simp add: latest_channel_opened_at_Max)
  next
    case False
    then have "?blocks \<noteq> {}" by simp
    with fin have "Max (insert 0 ?blocks) = Max ?blocks" by simp
    with False show ?thesis by (simp add: latest_channel_opened_at_Max)
  qed
  then have "q_pfs_wait_for_block ?request = (if ?channels = {} then 0 else Max ?blocks)"
    by (simp add: query_paths_call_def)
  with calls show ?thesis by blast
qed

theorem pfs_wait_for_block_is_latest_opening_witness:
  "snd (get_best_routes (ex_env (ex_service_paths [])) ex_chain_state 100 (Some 60) 1 4 100
          None (Some ex_pfs_config) []) =
     [query_paths_call ex_chain_state 100 60 1 4 100 ex_pfs_config [] 9] \<and>
   Max ((\<lambda>c. finished_block_number (open_transaction c)) `
          ran (map_of (channelidentifiers_to_channels ex_token_network))) = 9"
proof -
  have h1: "get_token_network_by_address (ex_env (ex_service_paths [])) ex_chain_state 100 =
            Some ex_token_network"
    by (simp add: ex_env_def)
  have ne: "ran (map_of (channelidentifiers_to_channels ex_token_network)) \<noteq> {}"
    by (simp add: ran_map_of ex_defs)
  have calls: "snd (get_best_routes (ex_env (ex_service_paths [])) ex_chain_state 100 (Some 60)
                 1 4 100 None (Some ex_pfs_config) []) =
               [query_paths_call ex_chain_state 100 60 1 4 100 ex_pfs_config [] 9]"
    by (simp add: get_best_routes_calls [OF h1 ex_no_direct_channel]
        get_best_routes_pfs_def Let_def ex_latest_channel_opened_at)
  from pfs_wait_for_block_is_latest_opening [OF h1 ex_no_direct_channel,
      of 60 1 None ex_pfs_config "[]"] ne calls
  show ?thesis by (simp add: query_paths_call_def)
qed

section \<open>The messages of a route search without routes\<close>

text \<open>
  When no direct channel is usable and the query succeeds with an empty list of paths,
  \<open>get_best_routes\<close> returns the message \<open>PFS could not find any routes\<close>, no route and
  no feedback token (the token of the answer is dropped).
\<close>

lemma pfs_zero_paths_message:
  assumes "get_token_network_by_address env chain_state token_network_address =
           Some token_network"
    and "direct_channel env token_network to_address amount = Inr False"
    and "query_paths env
           (query_paths_call chain_state token_network_address one_to_n from_address
              to_address amount config privkey (latest_channel_opened_at token_network)) =
         Inr ([], feedback_token)"
  shows "get_best_routes env chain_state token_network_address (Some one_to_n) from_address
           to_address amount previous_address (Some config) privkey =
         (Inr (Some ''PFS could not find any routes'', [], None),
          [query_paths_call chain_state token_network_address one_to_n from_address
             to_address amount config privkey (latest_channel_opened_at token_network)])"
  by (simp add: get_best_routes_no_direct [OF assms(1,2)]
      get_best_routes_pfs_success [OF assms(3)] truthy_def)





text \<open>
  Claim C5 says that a failed request and a successful request without routes never get
  the same message. A request that fails with an empty message does: the \<open>except\<close>
  branch returns \<open>None\<close> as its error message, \<open>get_best_routes\<close> takes that for a
  success without routes (the branch that its comment reserves for a service that
  "returns an empty list of routes without an error message"), and both calls end with
  \<open>PFS could not find any routes\<close>.
\<close>

theorem failed_request_reported_as_no_routes:
  "fst (get_best_routes (ex_env (ex_service_failure [])) ex_chain_state 100 (Some 60)
          1 4 100 None (Some ex_pfs_config) []) =
     Inr (Some ''PFS could not find any routes'', [], None) \<and>
   fst (get_best_routes (ex_env (ex_service_paths [])) ex_chain_state 100 (Some 60)
          1 4 100 None (Some ex_pfs_config) []) =
     Inr (Some ''PFS could not find any routes'', [], None)"
  by (simp add: get_best_routes_def get_best_routes_pfs_def direct_channel_def Let_def
      truthy_def pfs_request_failed_def ex_defs)

section \<open>Paths of fewer than two addresses\<close>

text \<open>
  Whatever the addresses are: when the first path of the service's answer converts to
  fewer than two addresses, \<open>get_best_routes_pfs\<close> raises \<open>IndexError\<close>.
\<close>

lemma pfs_short_first_path_raises:
  assumes "query_paths env (query_paths_call cs tna o2n frm to amount cfg key w) =
           Inr (po # rest, tok)"
    and "canonical_path env (PathObject.path po) = Some cp"
    and "length cp < 2"
  shows "fst (get_best_routes_pfs env cs tna o2n frm to amount prev cfg key w) =
         Inl IndexError"
proof -
  from assms(3) have "second_entry cp = Inl IndexError"
    by (cases cp rule: second_entry.cases) simp_all
  with assms(2) show ?thesis
    by (simp add: get_best_routes_pfs_success [OF assms(1)])
qed

text \<open>
  Claim C6 says that both functions skip a candidate of fewer than two addresses.
  \<open>resolve_routes\<close> does (\<open>if len(route_metadata.route) < 2: continue\<close>);
  \<open>get_best_routes_pfs\<close> reads \<open>canonical_path[1]\<close> without that check, and the
  \<open>IndexError\<close> leaves \<open>get_best_routes\<close> as well.
\<close>

theorem pfs_short_path_raises_IndexError:
  "fst (get_best_routes_pfs (ex_env (ex_service_paths [ex_path [''0x01''] 5])) ex_chain_state
          100 60 1 4 100 None ex_pfs_config [] 9) = Inl IndexError \<and>
   fst (get_best_routes (ex_env (ex_service_paths [ex_path [''0x01''] 5])) ex_chain_state
          100 (Some 60) 1 4 100 None (Some ex_pfs_config) []) = Inl IndexError \<and>
   resolve_routes (ex_env (ex_service_paths [])) [ex_metadata [1]] 100 ex_chain_state = []"
  by (simp add: get_best_routes_def get_best_routes_pfs_def direct_channel_def Let_def
      truthy_def resolve_routes_def latest_channel_opened_at_def dict_values_def ex_defs)

section \<open>The shape of the result\<close>

text \<open>
  Claim C10. Whenever \<open>get_best_routes\<close> returns, its three components are linked: an
  error message comes with an empty route list and no feedback token; a feedback token
  comes only with no error message and a non-empty route list; and the result of a usable
  direct channel has no feedback token.
\<close>

theorem result_components_linked:
  assumes "fst (get_best_routes env chain_state token_network_address one_to_n_address
                  from_address to_address amount previous_address pfs_config privkey) =
           Inr (error_msg, routes, feedback_token)"
  shows "(error_msg \<noteq> None \<longrightarrow> routes = [] \<and> feedback_token = None) \<and>
         (feedback_token \<noteq> None \<longrightarrow> error_msg = None \<and> routes \<noteq> []) \<and>
         (routes = [\<lparr>RouteState.route = [from_address, to_address],
                     RouteState.estimated_fee = 0\<rparr>] \<and>
          (\<exists>token_network.
             get_token_network_by_address env chain_state token_network_address =
               Some token_network \<and>
             direct_channel env token_network to_address amount = Inr True)
          \<longrightarrow> feedback_token = None)"
proof -
  have direct: "feedback_token = None"
    if "get_token_network_by_address env chain_state token_network_address = Some tn"
      and "direct_channel env tn to_address amount = Inr True" for tn
    using assms that by (simp add: get_best_routes_def)
  from get_best_routes_result_cases [OF assms] direct show ?thesis by auto
qed

theorem result_components_linked_witness:
  "fst (get_best_routes (ex_env (ex_service_paths [ex_path [''0x01'', ''0x02'', ''0x04''] 5]))
          ex_chain_state 100 (Some 60) 1 4 100 None (Some ex_pfs_config) []) =
     Inr (None, [ex_route [1, 2, 4] 5], Some 77) \<and>
   [ex_route [1, 2, 4] 5] \<noteq> []"
proof -
  have h: "fst (get_best_routes
                  (ex_env (ex_service_paths [ex_path [''0x01'', ''0x02'', ''0x04''] 5]))
                  ex_chain_state 100 (Some 60) 1 4 100 None (Some ex_pfs_config) []) =
           Inr (None, [ex_route [1, 2, 4] 5], Some 77)"
    by (simp add: get_best_routes_def get_best_routes_pfs_def direct_channel_def Let_def
        truthy_def ex_defs)
  from result_components_linked [OF h] h show ?thesis by simp
qed

section \<open>The channel to the next hop\<close>

text \<open>
  What the two functions do check. Every route returned by \<open>get_best_routes_pfs\<close> has at
  least two addresses, and the channel with the second one exists and is opened; a
  candidate of the service whose channel is missing or not opened is skipped, that is,
  the result is the one of the same answer without that candidate. Every route returned
  by \<open>resolve_routes\<close> has at least two addresses and a channel with the second one.
\<close>

lemma route_channel_lookup:
  "(fst (get_best_routes_pfs env chain_state token_network_address one_to_n_address
           from_address to_address amount previous_address pfs_config privkey
           pfs_wait_for_block) = Inr (error_msg, routes, feedback_token) \<and>
    r \<in> set routes \<longrightarrow>
      2 \<le> length (RouteState.route r) \<and>
      (\<exists>channel_state.
         get_channelstate_by_token_network_and_partner env chain_state token_network_address
           (RouteState.route r ! 1) = Some channel_state \<and>
         get_status env channel_state = STATE_OPENED)) \<and>
   (query_paths env
      (query_paths_call chain_state token_network_address one_to_n_address from_address
         to_address amount pfs_config privkey pfs_wait_for_block) =
      Inr (before @ path_object # after, token) \<and>
    canonical_path env (PathObject.path path_object) = Some cpath \<and>
    second_entry cpath = Inr partner_address \<and>
    (get_channelstate_by_token_network_and_partner env chain_state token_network_address
       partner_address = None \<or>
     (\<exists>channel_state.
        get_channelstate_by_token_network_and_partner env chain_state token_network_address
          partner_address = Some channel_state \<and>
        get_status env channel_state \<noteq> STATE_OPENED)) \<longrightarrow>
      fst (get_best_routes_pfs env chain_state token_network_address one_to_n_address
             from_address to_address amount previous_address pfs_config privkey
             pfs_wait_for_block) =
      fst (get_best_routes_pfs
             (env\<lparr>query_paths := (\<lambda>request. Inr (before @ after, token))\<rparr>)
             chain_state token_network_address one_to_n_address from_address to_address
             amount previous_address pfs_config privkey pfs_wait_for_block)) \<and>
   (r' \<in> set (resolve_routes env metadata token_network_address chain_state) \<longrightarrow>
      2 \<le> length (RouteState.route r') \<and>
      get_channelstate_by_token_network_and_partner env chain_state token_network_address
        (RouteState.route r' ! 1) \<noteq> None)"
proof (intro conjI impI)
  assume a: "fst (get_best_routes_pfs env chain_state token_network_address one_to_n_address
           from_address to_address amount previous_address pfs_config privkey
           pfs_wait_for_block) = Inr (error_msg, routes, feedback_token) \<and>
    r \<in> set routes"
  from get_best_routes_pfs_routes_accepted [OF conjunct1 [OF a] conjunct2 [OF a]]
  show "2 \<le> length (RouteState.route r)"
    and "\<exists>channel_state.
         get_channelstate_by_token_network_and_partner env chain_state token_network_address
           (RouteState.route r ! 1) = Some channel_state \<and>
         get_status env channel_state = STATE_OPENED"
    by blast+
next
  assume "query_paths env
      (query_paths_call chain_state token_network_address one_to_n_address from_address
         to_address amount pfs_config privkey pfs_wait_for_block) =
      Inr (before @ path_object # after, token) \<and>
    canonical_path env (PathObject.path path_object) = Some cpath \<and>
    second_entry cpath = Inr partner_address \<and>
    (get_channelstate_by_token_network_and_partner env chain_state token_network_address
       partner_address = None \<or>
     (\<exists>channel_state.
        get_channelstate_by_token_network_and_partner env chain_state token_network_address
          partner_address = Some channel_state \<and>
        get_status env channel_state \<noteq> STATE_OPENED))"
  then show "fst (get_best_routes_pfs env chain_state token_network_address one_to_n_address
             from_address to_address amount previous_address pfs_config privkey
             pfs_wait_for_block) =
      fst (get_best_routes_pfs
             (env\<lparr>query_paths := (\<lambda>request. Inr (before @ after, token))\<rparr>)
             chain_state token_network_address one_to_n_address from_address to_address
             amount previous_address pfs_config privkey pfs_wait_for_block)"
    by (intro get_best_routes_pfs_discard [where cp = cpath and partner = partner_address])
       blast+
next
  assume "r' \<in> set (resolve_routes env metadata token_network_address chain_state)"
  then show "2 \<le> length (RouteState.route r')"
    and "get_channelstate_by_token_network_and_partner env chain_state token_network_address
        (RouteState.route r' ! 1) \<noteq> None"
    by (auto simp: resolve_routes_eq)
qed

text \<open>
  Claim C2 says that both \<open>get_best_routes_pfs\<close> and \<open>resolve_routes\<close> discard a
  candidate whose channel to the second address exists but is not opened.
  \<open>get_best_routes_pfs\<close> does (lines 168 to 175). \<open>resolve_routes\<close> tests only
  \<open>channel_state is not None\<close> and never reads the status: of the same candidate through
  the closed channel to node 3, the first function returns no route and the second
  returns the route.
\<close>

theorem resolve_routes_keeps_closed_channel:
  "get_channelstate_by_token_network_and_partner
     (ex_env (ex_service_paths [ex_path [''0x01'', ''0x03'', ''0x04''] 2]))
     ex_chain_state 100 3 = Some (ex_channel 2 9) \<and>
   get_status (ex_env (ex_service_paths [ex_path [''0x01'', ''0x03'', ''0x04''] 2]))
     (ex_channel 2 9) = STATE_CLOSED \<and>
   fst (get_best_routes_pfs (ex_env (ex_service_paths [ex_path [''0x01'', ''0x03'', ''0x04''] 2]))
          ex_chain_state 100 60 1 4 100 None ex_pfs_config [] 9) =
     Inr (None, [], Some 77) \<and>
   resolve_routes (ex_env (ex_service_paths [ex_path [''0x01'', ''0x03'', ''0x04''] 2]))
     [ex_metadata [1, 3, 4]] 100 ex_chain_state =
     [ex_route [1, 3, 4] 0]"
  by (simp add: get_best_routes_pfs_def Let_def resolve_routes_def ex_defs)

section \<open>The previous hop\<close>

text \<open>
  Claim C7. No route returned by \<open>get_best_routes_pfs\<close> has the previous address as its
  second address, and a candidate of the service whose second (canonical) address is the
  previous address is skipped: the result is the one of the same answer without that
  candidate. \<open>resolve_routes\<close> has no previous address among its arguments and excludes
  nothing on that ground: a candidate whose second address is any given address, the
  previous hop included, is returned as soon as the channel with it exists.
\<close>

theorem no_backtrack_only_for_pfs:
  "(fst (get_best_routes_pfs env chain_state token_network_address one_to_n_address
           from_address to_address amount (Some previous) pfs_config privkey
           pfs_wait_for_block) = Inr (error_msg, routes, feedback_token) \<and>
    r \<in> set routes \<longrightarrow>
      2 \<le> length (RouteState.route r) \<and> RouteState.route r ! 1 \<noteq> previous) \<and>
   (query_paths env
      (query_paths_call chain_state token_network_address one_to_n_address from_address
         to_address amount pfs_config privkey pfs_wait_for_block) =
      Inr (before @ path_object # after, token) \<and>
    canonical_path env (PathObject.path path_object) = Some cpath \<and>
    second_entry cpath = Inr previous \<longrightarrow>
      fst (get_best_routes_pfs env chain_state token_network_address one_to_n_address
             from_address to_address amount (Some previous) pfs_config privkey
             pfs_wait_for_block) =
      fst (get_best_routes_pfs
             (env\<lparr>query_paths := (\<lambda>request. Inr (before @ after, token))\<rparr>)
             chain_state token_network_address one_to_n_address from_address to_address
             amount (Some previous) pfs_config privkey pfs_wait_for_block)) \<and>
   (route_metadata \<in> set metadata \<and> 2 \<le> length (RouteMetadata.route route_metadata) \<and>
    RouteMetadata.route route_metadata ! 1 = previous \<and>
    get_channelstate_by_token_network_and_partner env chain_state token_network_address
      previous \<noteq> None \<longrightarrow>
      \<lparr>RouteState.route = RouteMetadata.route route_metadata, RouteState.estimated_fee = 0\<rparr>
        \<in> set (resolve_routes env metadata token_network_address chain_state))"
proof (intro conjI impI)
  assume a: "fst (get_best_routes_pfs env chain_state token_network_address one_to_n_address
           from_address to_address amount (Some previous) pfs_config privkey
           pfs_wait_for_block) = Inr (error_msg, routes, feedback_token) \<and>
    r \<in> set routes"
  from get_best_routes_pfs_routes_accepted [OF conjunct1 [OF a] conjunct2 [OF a]]
  show "2 \<le> length (RouteState.route r)" and "RouteState.route r ! 1 \<noteq> previous"
    by blast+
next
  assume "query_paths env
      (query_paths_call chain_state token_network_address one_to_n_address from_address
         to_address amount pfs_config privkey pfs_wait_for_block) =
      Inr (before @ path_object # after, token) \<and>
    canonical_path env (PathObject.path path_object) = Some cpath \<and>
    second_entry cpath = Inr previous"
  then show "fst (get_best_routes_pfs env chain_state token_network_address one_to_n_address
             from_address to_address amount (Some previous) pfs_config privkey
             pfs_wait_for_block) =
      fst (get_best_routes_pfs
             (env\<lparr>query_paths := (\<lambda>request. Inr (before @ after, token))\<rparr>)
             chain_state token_network_address one_to_n_address from_address to_address
             amount (Some previous) pfs_config privkey pfs_wait_for_block)"
    by (intro get_best_routes_pfs_discard [where cp = cpath and partner = previous]) blast+
next
  assume "route_metadata \<in> set metadata \<and> 2 \<le> length (RouteMetadata.route route_metadata) \<and>
    RouteMetadata.route route_metadata ! 1 = previous \<and>
    get_channelstate_by_token_network_and_partner env chain_state token_network_address
      previous \<noteq> None"
  then show "\<lparr>RouteState.route = RouteMetadata.route route_metadata,
              RouteState.estimated_fee = 0\<rparr>
        \<in> set (resolve_routes env metadata token_network_address chain_state)"
    by (auto simp: resolve_routes_eq)
qed

theorem no_backtrack_only_for_pfs_witness:
  "fst (get_best_routes_pfs (ex_env (ex_service_paths ex_paths_via_2_and_5)) ex_chain_state
          100 60 1 4 100 (Some 2) ex_pfs_config [] 9) =
     Inr (None, [ex_route [1, 5, 4] 6], Some 77) \<and>
   fst (get_best_routes_pfs
          ((ex_env (ex_service_paths ex_paths_via_2_and_5))
             \<lparr>query_paths :=
                (\<lambda>request. Inr ([] @ [ex_path [''0x01'', ''0x05'', ''0x04''] 6], Some 77))\<rparr>)
          ex_chain_state 100 60 1 4 100 (Some 2) ex_pfs_config [] 9) =
     Inr (None, [ex_route [1, 5, 4] 6], Some 77) \<and>
   ex_route [1, 2, 4] 0 \<in>
     set (resolve_routes (ex_env (ex_service_paths ex_paths_via_2_and_5))
            [ex_metadata [1, 2, 4]] 100 ex_chain_state)"
proof -
  let ?env = "ex_env (ex_service_paths ex_paths_via_2_and_5)"
  note w = no_backtrack_only_for_pfs [where env = ?env and chain_state = ex_chain_state
      and token_network_address = 100 and one_to_n_address = 60 and from_address = 1
      and to_address = 4 and amount = 100 and previous = 2
      and pfs_config = ex_pfs_config and privkey = "[]" and pfs_wait_for_block = 9
      and error_msg = None and routes = "[ex_route [1, 5, 4] 6]" and feedback_token = "Some 77"
      and r = "ex_route [1, 5, 4] 6"
      and before = "[]" and path_object = "ex_path [''0x01'', ''0x02'', ''0x04''] 5"
      and after = "[ex_path [''0x01'', ''0x05'', ''0x04''] 6]" and token = "Some 77"
      and cpath = "[1, 2, 4]"
      and metadata = "[ex_metadata [1, 2, 4]]"
      and route_metadata = "ex_metadata [1, 2, 4]"]
  have q: "query_paths ?env (query_paths_call ex_chain_state 100 60 1 4 100 ex_pfs_config [] 9) =
           Inr ([] @ ex_path [''0x01'', ''0x02'', ''0x04''] 5 #
                  [ex_path [''0x01'', ''0x05'', ''0x04''] 6], Some 77)"
    by (simp add: ex_env_def ex_service_paths_def ex_paths_via_2_and_5_def)
  have cp: "canonical_path ?env (PathObject.path (ex_path [''0x01'', ''0x02'', ''0x04''] 5)) =
            Some [1, 2, 4]"
    by (simp add: ex_defs)
  have ch: "get_channelstate_by_token_network_and_partner ?env ex_chain_state 100 2 \<noteq> None"
    by (simp add: ex_defs)
  from w ex_pfs_paths_via_2_and_5 q cp ch show ?thesis
    by (simp add: ex_route_def ex_metadata_def)
qed

section \<open>What a returned route carries\<close>

text \<open>
  Claim C8. Every route returned by \<open>get_best_routes_pfs\<close> comes from one path object of
  the service's answer: its addresses are the canonical form of every node of that path,
  in order and in full, and its fee is that path object's \<open>estimated_fee\<close>. Every route
  returned by \<open>resolve_routes\<close> has the address list of one of the given route metadata,
  unchanged, and fee 0.
\<close>

theorem route_fee_and_addresses_carried_over:
  "(query_paths env
      (query_paths_call chain_state token_network_address one_to_n_address from_address
         to_address amount pfs_config privkey pfs_wait_for_block) =
      Inr (pfs_routes, token) \<and>
    fst (get_best_routes_pfs env chain_state token_network_address one_to_n_address
           from_address to_address amount previous_address pfs_config privkey
           pfs_wait_for_block) = Inr (error_msg, routes, feedback_token) \<and>
    r \<in> set routes \<longrightarrow>
      (\<exists>path_object \<in> set pfs_routes.
         map (to_canonical_address env) (PathObject.path path_object) =
           map Some (RouteState.route r) \<and>
         RouteState.estimated_fee r = PathObject.estimated_fee path_object)) \<and>
   (r' \<in> set (resolve_routes env metadata token_network_address chain_state) \<longrightarrow>
      RouteState.estimated_fee r' = 0 \<and>
      (\<exists>route_metadata \<in> set metadata.
         RouteState.route r' = RouteMetadata.route route_metadata))"
proof (intro conjI impI)
  assume a: "query_paths env
      (query_paths_call chain_state token_network_address one_to_n_address from_address
         to_address amount pfs_config privkey pfs_wait_for_block) =
      Inr (pfs_routes, token) \<and>
    fst (get_best_routes_pfs env chain_state token_network_address one_to_n_address
           from_address to_address amount previous_address pfs_config privkey
           pfs_wait_for_block) = Inr (error_msg, routes, feedback_token) \<and>
    r \<in> set routes"
  then have res: "fst (get_best_routes_pfs env chain_state token_network_address
           one_to_n_address from_address to_address amount previous_address pfs_config privkey
           pfs_wait_for_block) = Inr (error_msg, routes, feedback_token)"
    and r: "r \<in> set routes" by blast+
  from get_best_routes_pfs_routes_accepted [OF res r] a
  show "\<exists>path_object \<in> set pfs_routes.
         map (to_canonical_address env) (PathObject.path path_object) =
           map Some (RouteState.route r) \<and>
         RouteState.estimated_fee r = PathObject.estimated_fee path_object"
    by auto
next
  assume "r' \<in> set (resolve_routes env metadata token_network_address chain_state)"
  then show "RouteState.estimated_fee r' = 0"
    and "\<exists>route_metadata \<in> set metadata.
         RouteState.route r' = RouteMetadata.route route_metadata"
    by (auto simp: resolve_routes_eq)
qed

theorem route_fee_and_addresses_carried_over_witness:
  "fst (get_best_routes_pfs (ex_env (ex_service_paths ex_two_paths)) ex_chain_state 100 60 1 4
          100 None ex_pfs_config [] 9) =
     Inr (None, [ex_route [1, 2, 4] 5], Some 77) \<and>
   map (to_canonical_address (ex_env (ex_service_paths ex_two_paths)))
     (PathObject.path (ex_path [''0x01'', ''0x02'', ''0x04''] 5)) = map Some [1, 2, 4] \<and>
   PathObject.estimated_fee (ex_path [''0x01'', ''0x02'', ''0x04''] 5) = 5 \<and>
   resolve_routes (ex_env (ex_service_paths ex_two_paths))
     [ex_metadata [1, 3, 4], ex_metadata [1], ex_metadata [1, 4]] 100 ex_chain_state =
     [ex_route [1, 3, 4] 0] \<and>
   RouteState.estimated_fee (ex_route [1, 3, 4] 0) = 0"
proof -
  let ?env = "ex_env (ex_service_paths ex_two_paths)"
  let ?metadata = "[ex_metadata [1, 3, 4], ex_metadata [1], ex_metadata [1, 4]]"
  note w = route_fee_and_addresses_carried_over [where env = ?env
      and chain_state = ex_chain_state
      and token_network_address = 100 and one_to_n_address = 60 and from_address = 1
      and to_address = 4 and amount = 100 and previous_address = None
      and pfs_config = ex_pfs_config and privkey = "[]" and pfs_wait_for_block = 9
      and pfs_routes = ex_two_paths and token = "Some 77"
      and error_msg = None and routes = "[ex_route [1, 2, 4] 5]" and feedback_token = "Some 77"
      and r = "ex_route [1, 2, 4] 5"
      and metadata = ?metadata and r' = "ex_route [1, 3, 4] 0"]
  have q: "query_paths ?env (query_paths_call ex_chain_state 100 60 1 4 100 ex_pfs_config [] 9) =
           Inr (ex_two_paths, Some 77)"
    by (simp add: ex_env_def ex_service_paths_def)
  have pfs: "fst (get_best_routes_pfs ?env ex_chain_state 100 60 1 4 100 None ex_pfs_config
                    [] 9) = Inr (None, [ex_route [1, 2, 4] 5], Some 77)"
    by (simp add: ex_pfs_two_paths)
  have res: "resolve_routes ?env ?metadata 100 ex_chain_state = [ex_route [1, 3, 4] 0]"
    by (rule ex_resolve_routes)
  from w q pfs res show ?thesis
    by (simp add: ex_route_def ex_path_def ex_env_def ex_canonical_def)
qed

end
